theory Spec2Isabelle
  imports Complex_Main "HOL-Library.Sublist"
begin

section \<open>Python strings\<close>

text \<open>
  A Python \<open>str\<close> is a sequence of code points and \<open>len\<close> counts code points.
  The model uses \<^typ>\<open>string\<close>, reading every \<^typ>\<open>char\<close> as one code point
  below 256 (Latin-1); documents with code points beyond that range are outside the model.
\<close>

text \<open>
  The code points below 256 that \<open>str.strip()\<close> and \<open>str.isspace()\<close> treat as
  white space: TAB, LF, VT, FF, CR, FS, GS, RS, US, SPACE, NEL and NBSP.
\<close>

definition isspace :: "char \<Rightarrow> bool" where
  "isspace c = (c \<in> set [CHR 0x09, CHR 0x0A, CHR 0x0B, CHR 0x0C, CHR 0x0D,
                         CHR 0x1C, CHR 0x1D, CHR 0x1E, CHR 0x1F, CHR 0x20,
                         CHR 0x85, CHR 0xA0])"

definition lstrip :: "string \<Rightarrow> string" where
  "lstrip s = dropWhile isspace s"

definition rstrip :: "string \<Rightarrow> string" where
  "rstrip s = rev (dropWhile isspace (rev s))"

text \<open>\<open>s.strip()\<close>: white space removed at both ends.\<close>

definition strip_py :: "string \<Rightarrow> string" where
  "strip_py s = lstrip (rstrip s)"

text \<open>
  \<open>s.split(sep)\<close> for a non-empty separator: scan from the left, cut at every
  occurrence of \<open>sep\<close> and go on after it; the result always has at least one piece.
  \<open>acc\<close> is the piece being collected. Python raises \<open>ValueError\<close> on an empty
  separator; every separator of this program is a non-empty constant, and on an empty
  separator the model cuts nowhere.
\<close>

function split_from :: "string \<Rightarrow> string \<Rightarrow> string \<Rightarrow> string list" where
  "split_from sep acc [] = [acc]"
| "split_from sep acc (c # cs) =
     (if sep \<noteq> [] \<and> prefix sep (c # cs)
      then acc # split_from sep [] (drop (length sep) (c # cs))
      else split_from sep (acc @ [c]) cs)"
  by pat_completeness auto
termination
  by (relation "measure (\<lambda>(sep, acc, s). length s)") auto

definition split_py :: "string \<Rightarrow> string \<Rightarrow> string list" where
  "split_py s sep = split_from sep [] s"

text \<open>\<open>sep.join(pieces)\<close>, the inverse of \<open>split\<close>.\<close>

fun join_py :: "string \<Rightarrow> string list \<Rightarrow> string" where
  "join_py sep [] = []"
| "join_py sep [p] = p"
| "join_py sep (p # q # ps) = p @ sep @ join_py sep (q # ps)"

section \<open>The text chunker: \<open>smart_chunk\<close>\<close>

text \<open>
  The innermost loop of \<open>smart_chunk\<close>, over the sentences of one paragraph. The loop
  state is the running \<open>current_chunk\<close> and the list \<open>chunks\<close> built so far.
  \<open>max_tokens\<close> is a Python \<open>int\<close>, so it may be zero or negative.
\<close>

fun sentence_loop :: "int \<Rightarrow> string list \<Rightarrow> string \<Rightarrow> string list \<Rightarrow> string \<times> string list" where
  "sentence_loop max_tokens [] current_chunk chunks = (current_chunk, chunks)"
| "sentence_loop max_tokens (sentence # rest) current_chunk chunks =
     (if int (length current_chunk) + int (length sentence) < max_tokens * 4
      then sentence_loop max_tokens rest (current_chunk @ sentence @ ''. '') chunks
      else sentence_loop max_tokens rest (sentence @ ''. '')
             (if current_chunk \<noteq> [] then chunks @ [strip_py current_chunk] else chunks))"

text \<open>The branch for a paragraph longer than the budget: split into sentences, run the
  loop, flush the last running chunk.\<close>

definition chunk_sentences :: "int \<Rightarrow> string \<Rightarrow> string list \<Rightarrow> string list" where
  "chunk_sentences max_tokens para chunks =
     (case sentence_loop max_tokens (split_py para ''. '') [] chunks of
        (current_chunk, chunks') \<Rightarrow>
          if current_chunk \<noteq> [] then chunks' @ [strip_py current_chunk] else chunks')"

fun paragraph_loop :: "int \<Rightarrow> string list \<Rightarrow> string list \<Rightarrow> string list" where
  "paragraph_loop max_tokens [] chunks = chunks"
| "paragraph_loop max_tokens (para # rest) chunks =
     paragraph_loop max_tokens rest
       (if int (length para) > max_tokens * 4
        then chunk_sentences max_tokens para chunks
        else chunks @ [para])"

fun section_loop :: "int \<Rightarrow> string list \<Rightarrow> string list \<Rightarrow> string list" where
  "section_loop max_tokens [] chunks = chunks"
| "section_loop max_tokens (section # rest) chunks =
     section_loop max_tokens rest
       (if int (length section) > max_tokens * 4
        then paragraph_loop max_tokens (split_py section ''\<newline>\<newline>'') chunks
        else chunks @ [section])"

definition smart_chunk :: "string \<Rightarrow> int \<Rightarrow> string list" where
  "smart_chunk article max_tokens =
     filter (\<lambda>chunk. strip_py chunk \<noteq> [])
       (section_loop max_tokens (split_py article ''\<newline>## '') [])"

text \<open>
  Every sentence piece of the document: the pieces of \<open>split('. ')\<close> of every
  paragraph of every section. Used to state which chunks may overflow the budget.
\<close>

definition sentences_of :: "string \<Rightarrow> string list" where
  "sentences_of article =
     concat (map (\<lambda>para. split_py para ''. '')
       (concat (map (\<lambda>section. split_py section ''\<newline>\<newline>'')
          (split_py article ''\<newline>## ''))))"

section \<open>The query expander: \<open>_expand_query\<close>\<close>

text \<open>
  \<open>str.lower()\<close> on code points below 256: the ASCII capitals and the Latin-1
  capitals \<open>0xC0\<close> to \<open>0xDE\<close> (without the multiplication sign \<open>0xD7\<close>) move up
  by 32; every other code point stays.
\<close>

definition lower_char :: "char \<Rightarrow> char" where
  "lower_char c =
     (let n = (of_char c :: nat)
      in if (65 \<le> n \<and> n \<le> 90) \<or> (192 \<le> n \<and> n \<le> 222 \<and> n \<noteq> 215)
         then char_of (n + 32) else c)"

definition lower_py :: "string \<Rightarrow> string" where
  "lower_py s = map lower_char s"

text \<open>The dict literal \<open>expansions\<close>; a Python dict iterates in insertion order.\<close>

definition expansions :: "(string \<times> string) list" where
  "expansions =
     [(''can't'', ''cannot unable''),
      (''doesn't work'', ''not working broken error fail''),
      (''payment'', ''billing charge subscription invoice''),
      (''login'', ''sign in signin authenticate''),
      (''password'', ''credential passphrase pwd''),
      (''export'', ''download save extract''),
      (''delete'', ''remove erase clear''),
      (''create'', ''make new add''),
      (''update'', ''edit modify change'')]"

text \<open>
  The loop over \<open>expansions.items()\<close>. Python's \<open>term in expanded\<close> on strings is the
  contiguous-substring test, \<^const>\<open>sublist\<close>.
\<close>

fun expand_loop :: "(string \<times> string) list \<Rightarrow> string \<Rightarrow> string" where
  "expand_loop [] expanded = expanded"
| "expand_loop ((term, synonyms) # rest) expanded =
     expand_loop rest
       (if sublist term expanded then expanded @ '' '' @ synonyms else expanded)"

definition expand_query :: "string \<Rightarrow> string" where
  "expand_query user_query = expand_loop expansions (lower_py user_query)"

section \<open>Python floats\<close>

text \<open>
  A Python float is an IEEE 754 double. The model covers the finite doubles, each read as
  the rational number it denotes, so comparison is the comparison of rationals; every
  arithmetic operation gives the exact result rounded to the nearest double, ties to the
  even significand. Infinities, NaN, overflow and the subnormal range are outside the
  model.
\<close>

type_synonym double = rat

text \<open>The number of binary digits of a positive integer.\<close>

function bit_length :: "int \<Rightarrow> int" where
  "bit_length n = (if n \<le> 0 then 0 else 1 + bit_length (n div 2))"
  by pat_completeness auto
termination
  by (relation "measure nat") auto

definition pow2 :: "int \<Rightarrow> rat" where
  "pow2 e = (if 0 \<le> e then 2 ^ nat e else 1 / 2 ^ nat (- e))"

text \<open>The exponent \<open>e\<close> with \<open>2 ^ e \<le> \<bar>x\<bar> < 2 ^ (e + 1)\<close>, for \<open>x\<close> other than 0.\<close>

definition binary_exponent :: "rat \<Rightarrow> int" where
  "binary_exponent x =
     (case quotient_of \<bar>x\<bar> of
        (p, q) \<Rightarrow>
          let e0 = bit_length p - bit_length q
          in if pow2 e0 \<le> \<bar>x\<bar> then e0 else e0 - 1)"

definition round_half_even :: "rat \<Rightarrow> int" where
  "round_half_even x =
     (let f = \<lfloor>x\<rfloor>; d = x - of_int f
      in if d < 1 / 2 then f
         else if 1 / 2 < d then f + 1
         else if even f then f else f + 1)"

text \<open>Rounding to a significand of 53 binary digits. A decimal literal such as \<open>0.3\<close>
  denotes \<open>round_double (3 / 10)\<close>.\<close>

definition round_double :: "rat \<Rightarrow> double" where
  "round_double x =
     (if x = 0 then 0
      else let e = binary_exponent x - 52
           in of_int (round_half_even (x / pow2 e)) * pow2 e)"

definition fadd :: "double \<Rightarrow> double \<Rightarrow> double" where
  "fadd x y = round_double (x + y)"

definition fsub :: "double \<Rightarrow> double \<Rightarrow> double" where
  "fsub x y = round_double (x - y)"

definition fdiv :: "double \<Rightarrow> double \<Rightarrow> double" where
  "fdiv x y = round_double (x / y)"

text \<open>
  \<open>np.mean\<close> belongs to numpy, not to this program, and the order in which numpy adds
  depends on the length of the array; the program's functions take it as a parameter.
  On a list of fewer than eight doubles numpy adds from \<open>0.0\<close>, left to right, and
  divides by the count: that computation is \<open>np_mean_sequential\<close>, used to run the
  program on short lists.
\<close>

definition np_mean_sequential :: "double list \<Rightarrow> double" where
  "np_mean_sequential xs = fdiv (foldl fadd 0 xs) (of_nat (length xs))"

section \<open>The confidence estimator: \<open>_calculate_confidence\<close>\<close>

text \<open>
  \<open>mean\<close> stands for \<open>np.mean\<close>. The thresholds are the doubles the literals
  \<open>0.3\<close> and \<open>0.6\<close> denote.
\<close>

definition calculate_confidence :: "(double list \<Rightarrow> double) \<Rightarrow> double list \<Rightarrow> string" where
  "calculate_confidence mean distances =
     (if distances = [] then ''none''
      else let avg_distance = mean distances
           in if avg_distance < round_double (3 / 10) then ''high''
              else if avg_distance < round_double (6 / 10) then ''medium''
              else ''low'')"

section \<open>Collaborators, errors and program state\<close>

text \<open>
  A Python exception, with the text \<open>str(e)\<close> gives. Every one of them is a subclass
  of \<open>Exception\<close>, so \<open>except Exception\<close> catches it.
\<close>

datatype exn = Exception string | ValueError string | IndexError string

fun str_exn :: "exn \<Rightarrow> string" where
  "str_exn (Exception msg) = msg"
| "str_exn (ValueError msg) = msg"
| "str_exn (IndexError msg) = msg"

text \<open>An article is a \<open>Dict[str, str]\<close>.\<close>

type_synonym article = "string \<rightharpoonup> string"

text \<open>\<open>d.get(key, default)\<close>.\<close>

definition dict_get :: "article \<Rightarrow> string \<Rightarrow> string \<Rightarrow> string" where
  "dict_get d key dflt = (case d key of None \<Rightarrow> dflt | Some v \<Rightarrow> v)"

text \<open>The metadata dict stored with every document.\<close>

record metadata =
  m_article_id :: string
  m_title :: string
  m_category :: string
  m_char_count :: nat

text \<open>The dict \<open>collection.query\<close> returns: one inner list per query embedding.\<close>

record query_results =
  ids :: "string list list"
  documents :: "string list list"
  metadatas :: "metadata list list"
  distances :: "double list list"

text \<open>
  What the program does to the outside, in order: lines printed and calls made to the
  Embedder (\<open>client.models.embed_content\<close>), the Generator
  (\<open>client.models.generate_content\<close>) and the VectorStore (\<open>collection.add\<close>,
  \<open>collection.query\<close>). An embedding is a list of floats.
\<close>

datatype event =
    Print string
  | EmbedCall string "string list" string nat
  | GenerateCall string string
  | AddCall "double list list" "string list" "metadata list" "string list"
  | QueryCall "double list" int "string option"

text \<open>
  The three external capabilities, as functions of the outside world \<open>'w\<close> (the
  contents of the vector store among it): each call returns either the exception it
  raises or its result, and the world after the call. The last field is numpy's
  \<open>np.mean\<close>, a pure function of the list it is given.
\<close>

record 'w client =
  embed_content :: "'w \<Rightarrow> string \<Rightarrow> string list \<Rightarrow> string \<Rightarrow> nat \<Rightarrow> (exn + double list list) \<times> 'w"
  generate_content :: "'w \<Rightarrow> string \<Rightarrow> string \<Rightarrow> (exn + string) \<times> 'w"
  collection_add ::
    "'w \<Rightarrow> double list list \<Rightarrow> string list \<Rightarrow> metadata list \<Rightarrow> string list \<Rightarrow> (exn + unit) \<times> 'w"
  collection_query :: "'w \<Rightarrow> double list \<Rightarrow> int \<Rightarrow> string option \<Rightarrow> (exn + query_results) \<times> 'w"
  np_mean :: "double list \<Rightarrow> double"

record 'w state =
  world :: 'w
  trace :: "event list"

definition emit :: "event \<Rightarrow> 'w state \<Rightarrow> 'w state" where
  "emit ev st = st\<lparr>trace := trace st @ [ev]\<rparr>"

text \<open>\<open>xs[i]\<close> for a non-negative index: \<open>IndexError\<close> out of range.\<close>

definition nth_py :: "'a list \<Rightarrow> nat \<Rightarrow> exn + 'a" where
  "nth_py xs i = (if i < length xs then Inr (xs ! i) else Inl (IndexError ''list index out of range''))"

text \<open>\<open>str(n)\<close> for a non-negative integer.\<close>

definition digit_char :: "nat \<Rightarrow> char" where
  "digit_char d = char_of (48 + d)"

function str_of_nat :: "nat \<Rightarrow> string" where
  "str_of_nat n = (if n < 10 then [digit_char n] else str_of_nat (n div 10) @ [digit_char (n mod 10)])"
  by pat_completeness auto
termination
  by (relation "measure id") auto

section \<open>Indexing: \<open>index_help_articles\<close> and \<open>_index_batch\<close>\<close>

text \<open>\<open>all(k in article for k in ['title', 'content', 'article_id'])\<close>.\<close>

definition has_required_fields :: "article \<Rightarrow> bool" where
  "has_required_fields article =
     list_all (\<lambda>k. article k \<noteq> None) [''title'', ''content'', ''article_id'']"

text \<open>The line printed for a skipped article.\<close>

definition skip_message :: "article \<Rightarrow> string" where
  "skip_message article =
     ''Skipping article with missing fields: '' @ dict_get article ''article_id'' ''unknown''"

text \<open>\<open>f"{article['title']}\n\n{article['content']}"\<close>; both keys are present where
  the loop evaluates it.\<close>

definition full_text :: "article \<Rightarrow> string" where
  "full_text article = the (article ''title'') @ ''\<newline>\<newline>'' @ the (article ''content'')"

definition metadata_of :: "article \<Rightarrow> metadata" where
  "metadata_of article =
     \<lparr>m_article_id = the (article ''article_id''),
      m_title = the (article ''title''),
      m_category = dict_get article ''category'' ''general'',
      m_char_count = length (full_text article)\<rparr>"

text \<open>The validation loop of \<open>_index_batch\<close>; its state is \<open>documents_to_embed\<close>,
  \<open>metadata_list\<close> and what has been printed.\<close>

fun index_batch_loop ::
  "article list \<Rightarrow> string list \<Rightarrow> metadata list \<Rightarrow> event list \<Rightarrow>
   string list \<times> metadata list \<times> event list" where
  "index_batch_loop [] documents_to_embed metadata_list tr =
     (documents_to_embed, metadata_list, tr)"
| "index_batch_loop (article # rest) documents_to_embed metadata_list tr =
     (if \<not> has_required_fields article
      then index_batch_loop rest documents_to_embed metadata_list
             (tr @ [Print (skip_message article)])
      else index_batch_loop rest (documents_to_embed @ [full_text article])
             (metadata_list @ [metadata_of article]) tr)"

definition index_batch ::
  "'w client \<Rightarrow> article list \<Rightarrow> nat \<Rightarrow> 'w state \<Rightarrow> (exn + unit) \<times> 'w state" where
  "index_batch cl articles start_idx st =
     (case index_batch_loop articles [] [] (trace st) of
        (documents_to_embed, metadata_list, tr) \<Rightarrow>
          if documents_to_embed = [] then (Inr (), st\<lparr>trace := tr\<rparr>)
          else
            let st1 = emit (EmbedCall ''gemini-embedding-001'' documents_to_embed
                              ''RETRIEVAL_DOCUMENT'' 768)
                        (emit (Print (''Indexing '' @ str_of_nat (length documents_to_embed)
                                        @ '' help articles...''))
                           (st\<lparr>trace := tr\<rparr>))
            in case embed_content cl (world st) ''gemini-embedding-001'' documents_to_embed
                      ''RETRIEVAL_DOCUMENT'' 768 of
                 (Inl e, w1) \<Rightarrow>
                   (Inr (), emit (Print (''Error generating embeddings: '' @ str_exn e))
                              (st1\<lparr>world := w1\<rparr>))
               | (Inr embeddings, w1) \<Rightarrow>
                   let ids' = map (\<lambda>i. ''doc_'' @ str_of_nat (start_idx + i))
                                [0..<length documents_to_embed];
                       st2 = emit (AddCall embeddings documents_to_embed metadata_list ids')
                               (st1\<lparr>world := w1\<rparr>)
                   in case collection_add cl w1 embeddings documents_to_embed
                             metadata_list ids' of
                        (Inl e, w2) \<Rightarrow> (Inl e, st2\<lparr>world := w2\<rparr>)
                      | (Inr u, w2) \<Rightarrow>
                          (Inr (), emit (Print (''Successfully indexed ''
                                          @ str_of_nat (length documents_to_embed)
                                          @ '' articles!''))
                                     (st2\<lparr>world := w2\<rparr>)))"

text \<open>
  The loop \<open>for i in range(0, len(articles), batch_size)\<close> for a positive step; an
  exception of \<open>_index_batch\<close> ends it.
\<close>

function index_batches ::
  "'w client \<Rightarrow> article list \<Rightarrow> nat \<Rightarrow> nat \<Rightarrow> 'w state \<Rightarrow> (exn + unit) \<times> 'w state" where
  "index_batches cl articles batch_size i st =
     (if 0 < batch_size \<and> i < length articles
      then (case index_batch cl (take batch_size (drop i articles)) i st of
              (Inl e, st') \<Rightarrow> (Inl e, st')
            | (Inr u, st') \<Rightarrow> index_batches cl articles batch_size (i + batch_size) st')
      else (Inr (), st))"
  by pat_completeness auto
termination
  by (relation "measure (\<lambda>(cl, articles, batch_size, i, st). length articles - i)") auto

text \<open>
  \<open>batch_size\<close> is a Python \<open>int\<close>: \<open>range\<close> raises \<open>ValueError\<close> on a zero step and
  is empty on a negative one.
\<close>

definition index_help_articles ::
  "'w client \<Rightarrow> article list \<Rightarrow> int \<Rightarrow> 'w state \<Rightarrow> (exn + unit) \<times> 'w state" where
  "index_help_articles cl articles batch_size st =
     (if articles = [] then (Inr (), emit (Print ''No articles to index.'') st)
      else if batch_size = 0 then (Inl (ValueError ''range() arg 3 must not be zero''), st)
      else if batch_size < 0 then (Inr (), st)
      else index_batches cl articles (nat batch_size) 0 st)"

section \<open>Answering: \<open>answer_support_query\<close>\<close>

text \<open>One entry of \<open>relevant_articles\<close> and the dict the query returns.\<close>

record relevant_article =
  r_title :: string
  r_article_id :: string
  r_category :: string
  r_relevance_score :: double
  r_snippet :: string

record query_answer =
  answer :: string
  relevant_articles :: "relevant_article list"
  confidence :: string

text \<open>The f-string prompt of \<open>_generate_support_response\<close>.\<close>

definition support_prompt :: "string \<Rightarrow> string \<Rightarrow> string" where
  "support_prompt query context =
     ''Based on the following help articles, provide a clear and helpful answer to the user's question.\<newline>''
     @ ''        \<newline>''
     @ ''User Question: '' @ query @ ''\<newline>''
     @ ''\<newline>''
     @ ''Relevant Help Articles:\<newline>''
     @ context @ ''\<newline>''
     @ ''\<newline>''
     @ ''Instructions:\<newline>''
     @ ''- Provide a concise, friendly response that directly addresses the user's question\<newline>''
     @ ''- Use information from the articles to give specific, actionable steps\<newline>''
     @ ''- If the articles don't contain the exact answer, suggest related information that might help\<newline>''
     @ ''- Keep the tone helpful and professional\<newline>''
     @ ''- Format the response with clear steps if applicable''"

text \<open>\<open>_generate_support_response\<close>: the Generator's exception is caught and turned
  into the answer text.\<close>

definition generate_support_response ::
  "'w client \<Rightarrow> string \<Rightarrow> string \<Rightarrow> 'w state \<Rightarrow> string \<times> 'w state" where
  "generate_support_response cl query context st =
     (let prompt = support_prompt query context;
          st1 = emit (GenerateCall ''gemini-1.5-flash'' prompt) st
      in case generate_content cl (world st) ''gemini-1.5-flash'' prompt of
           (Inl e, w1) \<Rightarrow>
             (''I found relevant articles but encountered an error generating a response: ''
                @ str_exn e, st1\<lparr>world := w1\<rparr>)
         | (Inr text, w1) \<Rightarrow> (text, st1\<lparr>world := w1\<rparr>))"

text \<open>The dict built for index \<open>i\<close> in the formatting loop; every subscript may raise.\<close>

definition relevant_article_at :: "query_results \<Rightarrow> nat \<Rightarrow> exn + relevant_article" where
  "relevant_article_at results i =
     (case nth_py (metadatas results) 0 of Inl e \<Rightarrow> Inl e | Inr metas \<Rightarrow>
      case nth_py metas i of Inl e \<Rightarrow> Inl e | Inr m \<Rightarrow>
      case nth_py (distances results) 0 of Inl e \<Rightarrow> Inl e | Inr dists \<Rightarrow>
      case nth_py dists i of Inl e \<Rightarrow> Inl e | Inr d \<Rightarrow>
      case nth_py (documents results) 0 of Inl e \<Rightarrow> Inl e | Inr docs \<Rightarrow>
      case nth_py docs i of Inl e \<Rightarrow> Inl e | Inr doc \<Rightarrow>
        Inr \<lparr>r_title = m_title m, r_article_id = m_article_id m, r_category = m_category m,
             r_relevance_score = fsub 1 d, r_snippet = take 200 doc @ ''...''\<rparr>)"

text \<open>The loop \<open>for i in range(len(results['ids'][0]))\<close>, over the list of indices.\<close>

fun format_loop ::
  "query_results \<Rightarrow> nat list \<Rightarrow> relevant_article list \<Rightarrow> exn + relevant_article list" where
  "format_loop results [] relevant = Inr relevant"
| "format_loop results (i # rest) relevant =
     (case relevant_article_at results i of
        Inl e \<Rightarrow> Inl e
      | Inr entry \<Rightarrow> format_loop results rest (relevant @ [entry]))"

text \<open>What \<open>answer_support_query\<close> does with the dict the store returned.\<close>

definition format_response ::
  "'w client \<Rightarrow> string \<Rightarrow> query_results \<Rightarrow> 'w state \<Rightarrow> (exn + query_answer) \<times> 'w state" where
  "format_response cl user_query results st =
     (case nth_py (ids results) 0 of
        Inl e \<Rightarrow> (Inl e, st)
      | Inr ids0 \<Rightarrow>
          if ids0 = []
          then (Inr \<lparr>answer = ''I couldn't find any relevant articles for your question.'',
                      relevant_articles = [], confidence = ''none''\<rparr>, st)
          else
            (case format_loop results [0..<length ids0] [] of
               Inl e \<Rightarrow> (Inl e, st)
             | Inr relevant \<Rightarrow>
                 (case nth_py (documents results) 0 of
                    Inl e \<Rightarrow> (Inl e, st)
                  | Inr docs \<Rightarrow>
                      (case generate_support_response cl user_query
                              (join_py ''\<newline>\<newline>---\<newline>\<newline>'' docs) st of
                         (response, st1) \<Rightarrow>
                           (case nth_py (distances results) 0 of
                              Inl e \<Rightarrow> (Inl e, st1)
                            | Inr dists \<Rightarrow>
                                (Inr \<lparr>answer = response, relevant_articles = relevant,
                                       confidence = calculate_confidence (np_mean cl) dists\<rparr>, st1))))))"

text \<open>
  \<open>answer_support_query\<close>. Only the embedding call stands inside a \<open>try\<close>; the call
  \<open>collection.query\<close> does not, so its exception leaves the function. An empty
  \<open>category_filter\<close> is falsy and gives no \<open>where\<close> clause.
\<close>

definition answer_support_query ::
  "'w client \<Rightarrow> string \<Rightarrow> int \<Rightarrow> string option \<Rightarrow> 'w state \<Rightarrow> (exn + query_answer) \<times> 'w state" where
  "answer_support_query cl user_query top_k category_filter st =
     (let expanded_query = expand_query user_query;
          st1 = emit (EmbedCall ''gemini-embedding-001'' [expanded_query] ''RETRIEVAL_QUERY'' 768) st
      in case embed_content cl (world st) ''gemini-embedding-001'' [expanded_query]
                ''RETRIEVAL_QUERY'' 768 of
           (Inl e, w1) \<Rightarrow>
             (Inr \<lparr>answer = ''Error processing query: '' @ str_exn e,
                   relevant_articles = [], confidence = ''error''\<rparr>, st1\<lparr>world := w1\<rparr>)
         | (Inr embeddings, w1) \<Rightarrow>
             (case nth_py embeddings 0 of
                Inl e \<Rightarrow> (Inl e, st1\<lparr>world := w1\<rparr>)
              | Inr query_embedding \<Rightarrow>
                  let where_clause =
                        (case category_filter of
                           None \<Rightarrow> None
                         | Some c \<Rightarrow> if c = [] then None else Some c);
                      st2 = emit (QueryCall query_embedding top_k where_clause) (st1\<lparr>world := w1\<rparr>)
                  in case collection_query cl w1 query_embedding top_k where_clause of
                       (Inl e, w2) \<Rightarrow> (Inl e, st2\<lparr>world := w2\<rparr>)
                     | (Inr results, w2) \<Rightarrow>
                         format_response cl user_query results (st2\<lparr>world := w2\<rparr>)))"

section \<open>Sample collaborators\<close>

text \<open>
  A small in-memory stand-in for the collaborators, used to run the orchestrators on
  concrete inputs. The world is the list of stored documents with their ids. The
  embedder fails when \<open>embed_ok\<close> is false, the store when \<open>store_ok\<close> is false, the
  generator when \<open>generate_ok\<close> is false.
\<close>

definition sample_client :: "bool \<Rightarrow> bool \<Rightarrow> bool \<Rightarrow> (string \<times> string) list client" where
  "sample_client embed_ok store_ok generate_ok =
     \<lparr>embed_content = (\<lambda>w model contents task_type dims.
          (if embed_ok then Inr (map (\<lambda>text. [of_nat (length text)]) contents)
           else Inl (Exception ''embedding service unavailable''), w)),
      generate_content = (\<lambda>w model prompt.
          (if generate_ok then Inr ''Please follow the steps of the article.''
           else Inl (Exception ''generation service unavailable''), w)),
      collection_add = (\<lambda>w embeddings docs metas ids'.
          if store_ok then (Inr (), w @ zip ids' docs)
          else (Inl (Exception ''vector store unavailable''), w)),
      collection_query = (\<lambda>w embedding n_results where_clause.
          (if store_ok
           then Inr \<lparr>ids = [map fst w], documents = [map snd w],
                     metadatas = [map (\<lambda>(i, d). \<lparr>m_article_id = i, m_title = d,
                                     m_category = ''general'', m_char_count = length d\<rparr>) w],
                     distances = [map (\<lambda>x. round_double (2 / 10)) w]\<rparr>
           else Inl (Exception ''vector store unavailable''), w)),
      np_mean = np_mean_sequential\<rparr>"

definition sample_state :: "(string \<times> string) list state" where
  "sample_state = \<lparr>world = [], trace = []\<rparr>"

definition sample_article :: article where
  "sample_article =
     [''article_id'' \<mapsto> ''pwd-001'', ''title'' \<mapsto> ''Reset'', ''content'' \<mapsto> ''Click the link.'']"



text \<open>The events that are calls to a collaborator (everything but printing).\<close>

fun is_collaborator_call :: "event \<Rightarrow> bool" where
  "is_collaborator_call (Print line) = False"
| "is_collaborator_call (EmbedCall model contents task_type dims) = True"
| "is_collaborator_call (GenerateCall model prompt) = True"
| "is_collaborator_call (AddCall embeddings docs metas ids') = True"
| "is_collaborator_call (QueryCall embedding n_results where_clause) = True"

section \<open>Properties of the string operations\<close>

lemma all_dropWhile_iff: "(\<forall>x \<in> set (dropWhile P xs). P x) \<longleftrightarrow> (\<forall>x \<in> set xs. P x)"
proof
  assume a: "\<forall>x \<in> set (dropWhile P xs). P x"
  have "dropWhile P xs = []"
  proof (rule ccontr)
    assume n: "dropWhile P xs \<noteq> []"
    then have "\<not> P (hd (dropWhile P xs))" by (rule hd_dropWhile)
    moreover from n have "hd (dropWhile P xs) \<in> set (dropWhile P xs)" by simp
    ultimately show False using a by blast
  qed
  then show "\<forall>x \<in> set xs. P x" by simp
next
  assume "\<forall>x \<in> set xs. P x"
  then show "\<forall>x \<in> set (dropWhile P xs). P x" by (blast dest: set_dropWhileD)
qed

lemma strip_py_Nil_iff: "strip_py s = [] \<longleftrightarrow> (\<forall>c \<in> set s. isspace c)"
proof -
  have "strip_py s = [] \<longleftrightarrow> (\<forall>c \<in> set (dropWhile isspace (rev s)). isspace c)"
    by (simp add: strip_py_def lstrip_def rstrip_def)
  also have "\<dots> \<longleftrightarrow> (\<forall>c \<in> set (rev s). isspace c)" by (rule all_dropWhile_iff)
  finally show ?thesis by simp
qed

lemma isspace_dot: "\<not> isspace CHR ''.''" and isspace_space: "isspace CHR '' ''"
  by (simp_all add: isspace_def)

lemma rstrip_dot_space: "rstrip (x @ ''. '') = x @ ''.''"
  by (simp add: rstrip_def isspace_dot isspace_space)

lemma lstrip_snoc_dot: "lstrip (x @ ''.'') = lstrip x @ ''.''"
  by (simp add: lstrip_def dropWhile_append isspace_dot)

lemma strip_py_dot_space: "strip_py (x @ ''. '') = lstrip x @ ''.''"
  by (simp add: strip_py_def rstrip_dot_space lstrip_snoc_dot)

lemma length_lstrip: "length (lstrip x) \<le> length x"
  by (simp add: lstrip_def length_dropWhile_le)

lemma length_strip_py_dot_space: "length (strip_py (x @ ''. '')) \<le> length x + 1"
  using length_lstrip [of x] by (simp add: strip_py_dot_space)

lemma rstrip_decomp: "\<exists>ws. s = rstrip s @ ws"
proof -
  have "rev (takeWhile isspace (rev s) @ dropWhile isspace (rev s)) = s" by simp
  then have "rstrip s @ rev (takeWhile isspace (rev s)) = s"
    by (simp only: rev_append rstrip_def)
  then show ?thesis by metis
qed

lemma rstrip_last: "rstrip s \<noteq> [] \<Longrightarrow> \<not> isspace (last (rstrip s))"
  unfolding rstrip_def
  by (metis (full_types) Nil_is_rev_conv hd_dropWhile last_rev rev_rev_ident)

lemma prefix_strip_lstrip: "prefix (strip_py s) (lstrip s)"
proof (cases "rstrip s = []")
  case True
  then show ?thesis by (simp add: strip_py_def lstrip_def)
next
  case False
  obtain ws where ws: "s = rstrip s @ ws" using rstrip_decomp by blast
  from False have "last (rstrip s) \<in> set (rstrip s)" "\<not> isspace (last (rstrip s))"
    by (simp_all add: rstrip_last)
  then have "dropWhile isspace (rstrip s @ ws) = dropWhile isspace (rstrip s) @ ws"
    by (intro dropWhile_append1)
  with ws have "lstrip s = strip_py s @ ws" by (simp add: strip_py_def lstrip_def)
  then show ?thesis by simp
qed

subsection \<open>split\<close>

lemma split_from_not_Nil: "split_from sep acc s \<noteq> []"
  by (induction sep acc s rule: split_from.induct) auto

lemma join_py_Cons: "ps \<noteq> [] \<Longrightarrow> join_py sep (p # ps) = p @ sep @ join_py sep ps"
  by (cases ps) simp_all

lemma join_split_from: "join_py sep (split_from sep acc s) = acc @ s"
proof (induction sep acc s rule: split_from.induct)
  case (1 sep acc)
  show ?case by simp
next
  case (2 sep acc c cs)
  show ?case
  proof (cases "sep \<noteq> [] \<and> prefix sep (c # cs)")
    case True
    then have "c # cs = sep @ drop (length sep) (c # cs)"
      by (metis append_eq_conv_conj prefix_def)
    with True 2 show ?thesis
      by (simp add: join_py_Cons split_from_not_Nil del: drop_Suc_Cons)
  next
    case False
    with 2 show ?thesis by auto
  qed
qed

lemma split_from_no_occurrence: "\<not> sublist sep s \<Longrightarrow> split_from sep acc s = [acc @ s]"
proof (induction s arbitrary: acc)
  case Nil
  show ?case by simp
next
  case (Cons c cs)
  from Cons.prems have "\<not> prefix sep (c # cs)" "\<not> sublist sep cs"
    by (auto simp: sublist_Cons_right)
  with Cons.IH [of "acc @ [c]"] show ?case by simp
qed

lemma set_join_py: "set (join_py sep ps) \<subseteq> set sep \<union> \<Union> (set ` set ps)"
  by (induction sep ps rule: join_py.induct) auto

lemma split_py_blank:
  assumes "\<forall>c \<in> set sep. isspace c" and "\<forall>p \<in> set (split_py s sep). strip_py p = []"
  shows "strip_py s = []"
proof -
  have "s = join_py sep (split_py s sep)" by (simp add: split_py_def join_split_from)
  then have "set s \<subseteq> set sep \<union> \<Union> (set ` set (split_py s sep))"
    using set_join_py [of sep "split_py s sep"] by simp
  with assms show ?thesis by (auto simp: strip_py_Nil_iff)
qed

section \<open>Properties of the chunker\<close>

subsection \<open>Invariants of the loops\<close>

lemma sentence_loop_all:
  assumes "sentence_loop mt ss cur chunks = (cur', chunks')"
    and "\<forall>c \<in> set chunks. P c"
    and "cur \<noteq> [] \<longrightarrow> P (strip_py cur)"
    and "\<And>c s. int (length c) + int (length s) < mt * 4 \<Longrightarrow> P (strip_py (c @ s @ ''. ''))"
    and "\<And>s. s \<in> set ss \<Longrightarrow> P (strip_py (s @ ''. ''))"
  shows "(\<forall>c \<in> set chunks'. P c) \<and> (cur' \<noteq> [] \<longrightarrow> P (strip_py cur'))"
  using assms
proof (induction ss arbitrary: cur chunks)
  case Nil
  then show ?case by simp
next
  case (Cons s ss)
  show ?case
  proof (cases "int (length cur) + int (length s) < mt * 4")
    case True
    with Cons.prems(1) have "sentence_loop mt ss (cur @ s @ ''. '') chunks = (cur', chunks')"
      by simp
    moreover from True have "P (strip_py (cur @ s @ ''. ''))" by (rule Cons.prems(4))
    ultimately show ?thesis
      using Cons.prems(2,4,5) by (intro Cons.IH) auto
  next
    case False
    with Cons.prems(1) have
      "sentence_loop mt ss (s @ ''. '')
         (if cur \<noteq> [] then chunks @ [strip_py cur] else chunks) = (cur', chunks')"
      by simp
    moreover have "P (strip_py (s @ ''. ''))" by (rule Cons.prems(5)) simp
    moreover have "\<forall>c \<in> set (if cur \<noteq> [] then chunks @ [strip_py cur] else chunks). P c"
      using Cons.prems(2,3) by auto
    ultimately show ?thesis
      using Cons.prems(4,5) by (intro Cons.IH) auto
  qed
qed

lemma chunk_sentences_all:
  assumes "\<forall>c \<in> set chunks. P c"
    and "\<And>c s. int (length c) + int (length s) < mt * 4 \<Longrightarrow> P (strip_py (c @ s @ ''. ''))"
    and "\<And>s. s \<in> set (split_py para ''. '') \<Longrightarrow> P (strip_py (s @ ''. ''))"
  shows "\<forall>c \<in> set (chunk_sentences mt para chunks). P c"
proof -
  obtain cur' chunks' where r: "sentence_loop mt (split_py para ''. '') [] chunks = (cur', chunks')"
    by (cases "sentence_loop mt (split_py para ''. '') [] chunks")
  from sentence_loop_all [where P = P, OF r assms(1) _ assms(2,3)]
  have "(\<forall>c \<in> set chunks'. P c) \<and> (cur' \<noteq> [] \<longrightarrow> P (strip_py cur'))" by simp
  with r show ?thesis by (auto simp: chunk_sentences_def)
qed

lemma paragraph_loop_all:
  assumes "\<forall>c \<in> set chunks. P c"
    and "\<And>c s. int (length c) + int (length s) < mt * 4 \<Longrightarrow> P (strip_py (c @ s @ ''. ''))"
    and "\<And>para s. para \<in> set ps \<Longrightarrow> s \<in> set (split_py para ''. '') \<Longrightarrow> P (strip_py (s @ ''. ''))"
    and "\<And>para. para \<in> set ps \<Longrightarrow> int (length para) \<le> mt * 4 \<Longrightarrow> P para"
  shows "\<forall>c \<in> set (paragraph_loop mt ps chunks). P c"
  using assms
proof (induction ps arbitrary: chunks)
  case Nil
  then show ?case by simp
next
  case (Cons para ps)
  have "\<forall>c \<in> set (if int (length para) > mt * 4
                    then chunk_sentences mt para chunks else chunks @ [para]). P c"
  proof (cases "int (length para) > mt * 4")
    case True
    have "\<forall>c \<in> set (chunk_sentences mt para chunks). P c"
    proof (rule chunk_sentences_all)
      show "\<forall>c \<in> set chunks. P c" by (rule Cons.prems(1))
    next
      fix c s :: string assume "int (length c) + int (length s) < mt * 4"
      then show "P (strip_py (c @ s @ ''. ''))" by (rule Cons.prems(2))
    next
      fix s assume "s \<in> set (split_py para ''. '')"
      then show "P (strip_py (s @ ''. ''))" using Cons.prems(3) [of para s] by simp
    qed
    with True show ?thesis by simp
  next
    case False
    then have "P para" using Cons.prems(4) by simp
    with False Cons.prems(1) show ?thesis by simp
  qed
  then have "\<forall>c \<in> set (paragraph_loop mt ps (if int (length para) > mt * 4
                    then chunk_sentences mt para chunks else chunks @ [para])). P c"
  proof (rule Cons.IH)
    fix c s :: string assume "int (length c) + int (length s) < mt * 4"
    then show "P (strip_py (c @ s @ ''. ''))" by (rule Cons.prems(2))
  next
    fix p s assume "p \<in> set ps" "s \<in> set (split_py p ''. '')"
    then show "P (strip_py (s @ ''. ''))" using Cons.prems(3) [of p s] by simp
  next
    fix p assume "p \<in> set ps" "int (length p) \<le> mt * 4"
    then show "P p" using Cons.prems(4) [of p] by simp
  qed
  then show ?case by simp
qed

lemma section_loop_all:
  assumes "\<forall>c \<in> set chunks. P c"
    and "\<And>c s. int (length c) + int (length s) < mt * 4 \<Longrightarrow> P (strip_py (c @ s @ ''. ''))"
    and "\<And>section para s. section \<in> set secs \<Longrightarrow> para \<in> set (split_py section ''\<newline>\<newline>'') \<Longrightarrow>
           s \<in> set (split_py para ''. '') \<Longrightarrow> P (strip_py (s @ ''. ''))"
    and "\<And>x. int (length x) \<le> mt * 4 \<Longrightarrow> P x"
  shows "\<forall>c \<in> set (section_loop mt secs chunks). P c"
  using assms
proof (induction secs arbitrary: chunks)
  case Nil
  then show ?case by simp
next
  case (Cons sec secs)
  have "\<forall>c \<in> set (if int (length sec) > mt * 4
                    then paragraph_loop mt (split_py sec ''\<newline>\<newline>'') chunks
                    else chunks @ [sec]). P c"
  proof (cases "int (length sec) > mt * 4")
    case True
    have "\<forall>c \<in> set (paragraph_loop mt (split_py sec ''\<newline>\<newline>'') chunks). P c"
    proof (rule paragraph_loop_all)
      show "\<forall>c \<in> set chunks. P c" by (rule Cons.prems(1))
    next
      fix c s :: string assume "int (length c) + int (length s) < mt * 4"
      then show "P (strip_py (c @ s @ ''. ''))" by (rule Cons.prems(2))
    next
      fix para s assume "para \<in> set (split_py sec ''\<newline>\<newline>'')" "s \<in> set (split_py para ''. '')"
      then show "P (strip_py (s @ ''. ''))" using Cons.prems(3) [of sec para s] by simp
    next
      fix para :: string assume "int (length para) \<le> mt * 4"
      then show "P para" by (rule Cons.prems(4))
    qed
    with True show ?thesis by simp
  next
    case False
    then have "P sec" using Cons.prems(4) by simp
    with False Cons.prems(1) show ?thesis by simp
  qed
  then have "\<forall>c \<in> set (section_loop mt secs (if int (length sec) > mt * 4
                    then paragraph_loop mt (split_py sec ''\<newline>\<newline>'') chunks
                    else chunks @ [sec])). P c"
  proof (rule Cons.IH)
    fix c s :: string assume "int (length c) + int (length s) < mt * 4"
    then show "P (strip_py (c @ s @ ''. ''))" by (rule Cons.prems(2))
  next
    fix x para s
    assume "x \<in> set secs" "para \<in> set (split_py x ''\<newline>\<newline>'')"
      "s \<in> set (split_py para ''. '')"
    then show "P (strip_py (s @ ''. ''))" using Cons.prems(3) [of x para s] by simp
  next
    fix x :: string assume "int (length x) \<le> mt * 4"
    then show "P x" by (rule Cons.prems(4))
  qed
  then show ?case by simp
qed

lemma accumulate_within_budget:
  assumes "int (length cur) + int (length s) < mt * 4"
  shows "int (length (strip_py (cur @ s @ ''. ''))) \<le> mt * 4"
proof -
  have "length (strip_py ((cur @ s) @ ''. '')) \<le> length (cur @ s) + 1"
    by (rule length_strip_py_dot_space)
  with assms show ?thesis by simp
qed

lemma single_sentence_chunk:
  "int (length (strip_py (s @ ''. ''))) \<le> mt * 4 \<or>
   (mt * 4 \<le> int (length s) \<and> prefix (strip_py s) (strip_py (s @ ''. '')) \<and>
    length (strip_py (s @ ''. '')) \<le> length s + 1)"
proof (cases "int (length s) < mt * 4")
  case True
  with length_strip_py_dot_space [of s] show ?thesis by simp
next
  case False
  have "prefix (strip_py s) (strip_py (s @ ''. ''))"
    using prefix_strip_lstrip [of s] by (simp add: strip_py_dot_space prefix_prefix)
  with False length_strip_py_dot_space [of s] show ?thesis by simp
qed

lemma sentence_loop_mono:
  "sentence_loop mt ss cur chunks = (cur', chunks') \<Longrightarrow> set chunks \<subseteq> set chunks'"
proof (induction ss arbitrary: cur chunks)
  case Nil
  then show ?case by simp
next
  case (Cons s ss)
  show ?case
  proof (cases "int (length cur) + int (length s) < mt * 4")
    case True
    with Cons.prems have "sentence_loop mt ss (cur @ s @ ''. '') chunks = (cur', chunks')"
      by simp
    then show ?thesis by (rule Cons.IH)
  next
    case False
    with Cons.prems have
      "sentence_loop mt ss (s @ ''. '')
         (if cur \<noteq> [] then chunks @ [strip_py cur] else chunks) = (cur', chunks')"
      by simp
    then have "set (if cur \<noteq> [] then chunks @ [strip_py cur] else chunks) \<subseteq> set chunks'"
      by (rule Cons.IH)
    then show ?thesis by (auto split: if_splits)
  qed
qed

lemma sentence_loop_current:
  "ss \<noteq> [] \<or> (\<exists>x. cur = x @ ''. '') \<Longrightarrow>
   \<exists>x. fst (sentence_loop mt ss cur chunks) = x @ ''. ''"
proof (induction ss arbitrary: cur chunks)
  case Nil
  then show ?case by simp
next
  case (Cons s ss)
  have a: "\<exists>x. cur @ s @ ''. '' = x @ ''. ''" by (rule exI [of _ "cur @ s"]) simp
  have b: "\<exists>x. s @ ''. '' = x @ ''. ''" by blast
  show ?case
    using Cons.IH [of "cur @ s @ ''. ''" chunks, OF disjI2, OF a]
      Cons.IH [of "s @ ''. ''" "if cur \<noteq> [] then chunks @ [strip_py cur] else chunks",
        OF disjI2, OF b]
    by simp
qed

lemma strip_py_dot_nonblank: "strip_py (strip_py (x @ ''. '')) \<noteq> []"
  by (simp add: strip_py_dot_space strip_py_Nil_iff isspace_dot)

lemma chunk_sentences_mono: "set chunks \<subseteq> set (chunk_sentences mt para chunks)"
proof -
  obtain cur' chunks' where r: "sentence_loop mt (split_py para ''. '') [] chunks = (cur', chunks')"
    by (cases "sentence_loop mt (split_py para ''. '') [] chunks")
  from sentence_loop_mono [OF r] r show ?thesis by (auto simp: chunk_sentences_def)
qed

lemma chunk_sentences_nonblank:
  "\<exists>c \<in> set (chunk_sentences mt para chunks). strip_py c \<noteq> []"
proof -
  obtain cur' chunks' where r: "sentence_loop mt (split_py para ''. '') [] chunks = (cur', chunks')"
    by (cases "sentence_loop mt (split_py para ''. '') [] chunks")
  have "split_py para ''. '' \<noteq> []" by (simp add: split_py_def split_from_not_Nil)
  then obtain x where "fst (sentence_loop mt (split_py para ''. '') [] chunks) = x @ ''. ''"
    using sentence_loop_current [of "split_py para ''. ''" "[]" mt chunks] by blast
  with r have "cur' = x @ ''. ''" by simp
  with r have "strip_py (x @ ''. '') \<in> set (chunk_sentences mt para chunks)"
    by (simp add: chunk_sentences_def)
  then show ?thesis using strip_py_dot_nonblank by blast
qed

lemma paragraph_loop_mono: "set chunks \<subseteq> set (paragraph_loop mt ps chunks)"
proof (induction ps arbitrary: chunks)
  case Nil
  show ?case by simp
next
  case (Cons para ps)
  have "set chunks \<subseteq> set (if int (length para) > mt * 4
                    then chunk_sentences mt para chunks else chunks @ [para])"
    using chunk_sentences_mono [of chunks mt para] by auto
  also have "\<dots> \<subseteq> set (paragraph_loop mt (para # ps) chunks)"
    using Cons.IH by simp
  finally show ?case .
qed

lemma paragraph_loop_nonblank:
  assumes "\<exists>p \<in> set ps. strip_py p \<noteq> [] \<or> int (length p) > mt * 4"
  shows "\<exists>c \<in> set (paragraph_loop mt ps chunks). strip_py c \<noteq> []"
  using assms
proof (induction ps arbitrary: chunks)
  case Nil
  then show ?case by simp
next
  case (Cons para ps)
  let ?next = "if int (length para) > mt * 4
               then chunk_sentences mt para chunks else chunks @ [para]"
  show ?case
  proof (cases "strip_py para \<noteq> [] \<or> int (length para) > mt * 4")
    case True
    have "\<exists>c \<in> set ?next. strip_py c \<noteq> []"
    proof (cases "int (length para) > mt * 4")
      case True
      then show ?thesis using chunk_sentences_nonblank [of mt para chunks] by simp
    next
      case False
      with True show ?thesis by simp
    qed
    then obtain c where c: "c \<in> set ?next" "strip_py c \<noteq> []" by blast
    from c(1) have "c \<in> set (paragraph_loop mt ps ?next)"
      using paragraph_loop_mono by blast
    then have "c \<in> set (paragraph_loop mt (para # ps) chunks)" by simp
    with c(2) show ?thesis by blast
  next
    case False
    with Cons.prems have "\<exists>p \<in> set ps. strip_py p \<noteq> [] \<or> int (length p) > mt * 4"
      by auto
    then have "\<exists>c \<in> set (paragraph_loop mt ps ?next). strip_py c \<noteq> []"
      by (rule Cons.IH)
    then show ?thesis by simp
  qed
qed

lemma section_loop_mono: "set chunks \<subseteq> set (section_loop mt secs chunks)"
proof (induction secs arbitrary: chunks)
  case Nil
  show ?case by simp
next
  case (Cons sec secs)
  have "set chunks \<subseteq> set (if int (length sec) > mt * 4
                    then paragraph_loop mt (split_py sec ''\<newline>\<newline>'') chunks
                    else chunks @ [sec])"
    using paragraph_loop_mono [of chunks mt "split_py sec ''\<newline>\<newline>''"] by auto
  also have "\<dots> \<subseteq> set (section_loop mt (sec # secs) chunks)"
    using Cons.IH by simp
  finally show ?case .
qed

lemma isspace_newline: "isspace CHR 0x0A"
  by (simp add: isspace_def)

lemma section_loop_nonblank:
  assumes "\<exists>s \<in> set secs. strip_py s \<noteq> []"
  shows "\<exists>c \<in> set (section_loop mt secs chunks). strip_py c \<noteq> []"
  using assms
proof (induction secs arbitrary: chunks)
  case Nil
  then show ?case by simp
next
  case (Cons sec secs)
  let ?next = "if int (length sec) > mt * 4
               then paragraph_loop mt (split_py sec ''\<newline>\<newline>'') chunks
               else chunks @ [sec]"
  show ?case
  proof (cases "strip_py sec \<noteq> []")
    case True
    have "\<exists>c \<in> set ?next. strip_py c \<noteq> []"
    proof (cases "int (length sec) > mt * 4")
      case over: True
      have "\<exists>p \<in> set (split_py sec ''\<newline>\<newline>''). strip_py p \<noteq> []"
        using split_py_blank [of "''\<newline>\<newline>''" sec] True
        by (auto simp: isspace_newline)
      then have "\<exists>c \<in> set (paragraph_loop mt (split_py sec ''\<newline>\<newline>'') chunks). strip_py c \<noteq> []"
        by (intro paragraph_loop_nonblank) blast
      with over show ?thesis by simp
    next
      case False
      with True show ?thesis by simp
    qed
    then obtain c where c: "c \<in> set ?next" "strip_py c \<noteq> []" by blast
    from c(1) have "c \<in> set (section_loop mt secs ?next)"
      using section_loop_mono by blast
    then have "c \<in> set (section_loop mt (sec # secs) chunks)" by simp
    with c(2) show ?thesis by blast
  next
    case False
    with Cons.prems have "\<exists>s \<in> set secs. strip_py s \<noteq> []" by auto
    then have "\<exists>c \<in> set (section_loop mt secs ?next). strip_py c \<noteq> []"
      by (rule Cons.IH)
    then show ?thesis by simp
  qed
qed

section \<open>The claims about the chunker\<close>

text \<open>
  Claim C1, as amended. For every document and every budget (positive or not), each
  chunk that \<open>smart_chunk\<close> returns has at most \<open>max_tokens * 4\<close> characters, or it
  comes from one single sentence piece of the document whose own length is at least
  \<open>max_tokens * 4\<close>: the trimmed sentence is the beginning of the chunk and the chunk is
  at most one character longer than the sentence. And whenever the greedy test of the
  sentence loop admits a sentence to the running chunk, that running chunk, trimmed as it
  is when flushed, stays within \<open>max_tokens * 4\<close> characters: accumulation never yields
  an over-budget chunk.
\<close>

theorem smart_chunk_budget:
  "(\<forall>chunk \<in> set (smart_chunk article max_tokens).
      int (length chunk) \<le> max_tokens * 4 \<or>
      (\<exists>sentence \<in> set (sentences_of article).
         max_tokens * 4 \<le> int (length sentence) \<and>
         prefix (strip_py sentence) chunk \<and>
         length chunk \<le> length sentence + 1))
   \<and> (int (length current_chunk) + int (length sentence') < max_tokens * 4 \<longrightarrow>
        sentence_loop max_tokens (sentence' # rest) current_chunk chunks =
          sentence_loop max_tokens rest (current_chunk @ sentence' @ ''. '') chunks
        \<and> int (length (strip_py (current_chunk @ sentence' @ ''. ''))) \<le> max_tokens * 4)"
proof -
  let ?P = "\<lambda>chunk. int (length chunk) \<le> max_tokens * 4 \<or>
      (\<exists>sentence \<in> set (sentences_of article).
         max_tokens * 4 \<le> int (length sentence) \<and>
         prefix (strip_py sentence) chunk \<and>
         length chunk \<le> length sentence + 1)"
  have "\<forall>c \<in> set (section_loop max_tokens (split_py article ''\<newline>## '') []). ?P c"
  proof (rule section_loop_all)
    show "\<forall>c \<in> set []. ?P c" by simp
  next
    fix c s :: string assume "int (length c) + int (length s) < max_tokens * 4"
    then show "?P (strip_py (c @ s @ ''. ''))"
      using accumulate_within_budget by blast
  next
    fix sec para s
    assume "sec \<in> set (split_py article ''\<newline>## '')"
      "para \<in> set (split_py sec ''\<newline>\<newline>'')" "s \<in> set (split_py para ''. '')"
    then have "s \<in> set (sentences_of article)"
      by (auto simp: sentences_of_def)
    with single_sentence_chunk [of s max_tokens] show "?P (strip_py (s @ ''. ''))"
      by blast
  next
    fix x :: string assume "int (length x) \<le> max_tokens * 4"
    then show "?P x" by simp
  qed
  then have "\<forall>chunk \<in> set (smart_chunk article max_tokens). ?P chunk"
    by (simp add: smart_chunk_def)
  moreover have "int (length current_chunk) + int (length sentence') < max_tokens * 4 \<longrightarrow>
        sentence_loop max_tokens (sentence' # rest) current_chunk chunks =
          sentence_loop max_tokens rest (current_chunk @ sentence' @ ''. '') chunks
        \<and> int (length (strip_py (current_chunk @ sentence' @ ''. ''))) \<le> max_tokens * 4"
    using accumulate_within_budget by simp
  ultimately show ?thesis by blast
qed

text \<open>
  The theorem at \<open>max_tokens = 2\<close> (8 characters): the chunk \<open>Hello world.\<close> has 12
  characters and comes from the sentence \<open>Hello world\<close> of 11 characters.
\<close>

theorem smart_chunk_budget_witness:
  "''Hello world.'' \<in> set (smart_chunk ''Hello world. This is it.'' 2) \<and>
   (int (length ''Hello world.'') \<le> 2 * 4 \<or>
    (\<exists>sentence \<in> set (sentences_of ''Hello world. This is it.'').
       2 * 4 \<le> int (length sentence) \<and>
       prefix (strip_py sentence) ''Hello world.'' \<and>
       length ''Hello world.'' \<le> length sentence + 1)) \<and>
   int (length ''a. '') + int (length ''bc'') < 2 * 4 \<and>
   int (length (strip_py (''a. '' @ ''bc'' @ ''. ''))) \<le> 2 * 4"
proof -
  have m: "''Hello world.'' \<in> set (smart_chunk ''Hello world. This is it.'' 2)"
    by code_simp
  have h: "int (length ''a. '') + int (length ''bc'') < 2 * 4" by simp
  from smart_chunk_budget [where article = "''Hello world. This is it.''" and max_tokens = 2
      and current_chunk = "''a. ''" and sentence' = "''bc''" and rest = "[]" and chunks = "[]"]
    m h
  show ?thesis by blast
qed

text \<open>
  The claim as the specification words it (an over-budget chunk is a single sentence that
  itself exceeds the budget) fails at the boundary: with a budget of one token (4
  characters) the document \<open>abcd. efgh\<close> yields two chunks of 5 characters, though both
  of its sentences have exactly 4 characters and so do not exceed the budget.
\<close>

theorem smart_chunk_budget_counterexample:
  "smart_chunk ''abcd. efgh'' 1 = [''abcd.'', ''efgh.''] \<and>
   sentences_of ''abcd. efgh'' = [''abcd'', ''efgh''] \<and>
   int (length ''abcd.'') > 1 * 4 \<and> int (length ''efgh.'') > 1 * 4 \<and>
   int (length ''abcd'') \<le> 1 * 4 \<and> int (length ''efgh'') \<le> 1 * 4"
  by code_simp

text \<open>
  Claim C2, as amended. A text of at most \<open>max_tokens * 4\<close> characters that contains no
  header marker (newline, two hashes, space) and is not white space only comes back as
  exactly one chunk, and that chunk is the text itself, untrimmed.
\<close>

theorem smart_chunk_short_text:
  assumes "int (length article) \<le> max_tokens * 4"
    and "\<not> sublist ''\<newline>## '' article"
    and "strip_py article \<noteq> []"
  shows "smart_chunk article max_tokens = [article]"
  using assms by (simp add: smart_chunk_def split_py_def split_from_no_occurrence)

text \<open>The theorem at a short text with white space at both ends.\<close>

theorem smart_chunk_short_text_witness:
  "int (length '' Hello. '') \<le> 500 * 4 \<and>
   \<not> sublist ''\<newline>## '' '' Hello. '' \<and>
   strip_py '' Hello. '' \<noteq> [] \<and>
   smart_chunk '' Hello. '' 500 = ['' Hello. '']"
proof -
  have a: "int (length '' Hello. '') \<le> 500 * 4" by simp
  have b: "\<not> sublist ''\<newline>## '' '' Hello. ''" by code_simp
  have c: "strip_py '' Hello. '' \<noteq> []" by code_simp
  from smart_chunk_short_text [OF a b c] a b c show ?thesis by blast
qed

text \<open>
  The claim as the specification words it fails three ways on texts far below the
  budget: the chunk is not trimmed; a header marker splits a short text into two chunks;
  a text of white space only gives no chunk at all.
\<close>

theorem smart_chunk_short_text_counterexample:
  "int (length '' a '') \<le> 500 * 4 \<and>
   smart_chunk '' a '' 500 = ['' a ''] \<and> strip_py '' a '' = ''a'' \<and>
   int (length ''a\<newline>## b'') \<le> 500 * 4 \<and>
   smart_chunk ''a\<newline>## b'' 500 = [''a'', ''b''] \<and>
   int (length '' '') \<le> 500 * 4 \<and> smart_chunk '' '' 500 = []"
  by code_simp

text \<open>
  Claim C3, as amended. When at least one section of the document (a piece between header
  markers) is not white space only, \<open>smart_chunk\<close> returns at least one chunk, for
  every budget.
\<close>

theorem smart_chunk_at_least_one:
  assumes "\<exists>section \<in> set (split_py article ''\<newline>## ''). strip_py section \<noteq> []"
  shows "length (smart_chunk article max_tokens) \<ge> 1"
proof -
  from assms obtain c
    where "c \<in> set (section_loop max_tokens (split_py article ''\<newline>## '') [])"
      and "strip_py c \<noteq> []"
    using section_loop_nonblank by blast
  then have "c \<in> set (smart_chunk article max_tokens)" by (simp add: smart_chunk_def)
  then show ?thesis by (cases "smart_chunk article max_tokens") auto
qed

text \<open>The theorem at a document of two sections, the second one over budget.\<close>

theorem smart_chunk_at_least_one_witness:
  "(\<exists>section \<in> set (split_py ''Intro\<newline>## Hello world. This is it.'' ''\<newline>## ''). strip_py section \<noteq> []) \<and>
   length (smart_chunk ''Intro\<newline>## Hello world. This is it.'' 2) \<ge> 1"
proof -
  have a: "\<exists>section \<in> set (split_py ''Intro\<newline>## Hello world. This is it.'' ''\<newline>## ''). strip_py section \<noteq> []"
    by code_simp
  from smart_chunk_at_least_one [OF a] a show ?thesis by blast
qed

text \<open>
  The claim as the specification words it fails for non-empty documents whose sections
  are all blank: a single space, or a lone header marker.
\<close>

theorem smart_chunk_at_least_one_counterexample:
  "'' '' \<noteq> [] \<and> smart_chunk '' '' 500 = [] \<and>
   ''\<newline>## '' \<noteq> [] \<and> smart_chunk ''\<newline>## '' 500 = []"
  by code_simp

text \<open>
  Claim C4. The claim asks every chunk to be a contiguous substring of the document. The
  sentence loop appends a full stop and a space to every sentence piece, also to the last
  one, which no separator followed: here the second chunk ends in two full stops and
  occurs nowhere in the document.
\<close>

theorem smart_chunk_not_substring:
  "smart_chunk ''Hello world. This is it.'' 2 = [''Hello world.'', ''This is it..''] \<and>
   \<not> sublist ''This is it..'' ''Hello world. This is it.''"
  by code_simp

section \<open>Properties of the expander, the estimator and the orchestrators\<close>

lemma expand_loop_foldl:
  "expand_loop es expanded =
     foldl (\<lambda>expanded (trigger, synonyms).
              if (\<exists>pre post. expanded = pre @ trigger @ post)
              then expanded @ '' '' @ synonyms else expanded) expanded es"
  by (induction es expanded rule: expand_loop.induct) (simp_all add: sublist_def)

lemma expand_query_login:
  "expand_query ''I can't login'' = ''i can't login cannot unable sign in signin authenticate''"
  by code_simp


lemma calculate_confidence_labels:
  "calculate_confidence mean ds \<in> set [''high'', ''medium'', ''low'', ''none'']"
  by (simp add: calculate_confidence_def Let_def)

text \<open>
  The doubles of some decimal literals, as \<open>float.hex\<close> shows them (\<open>0.1\<close> is
  \<open>0x1.999999999999ap-4\<close>, \<open>0.3\<close> is \<open>0x1.3333333333333p-2\<close>), the sum
  \<open>0.1 + 0.2\<close>, which is not the double \<open>0.3\<close>, and a tie that goes to the even
  significand.
\<close>

lemma round_double_examples:
  "round_double (1 / 10) = 7205759403792794 / 2 ^ 56"
  "round_double (3 / 10) = 5404319552844595 / 2 ^ 54"
  "round_double (6 / 10) = 5404319552844595 / 2 ^ 53"
  "fadd (round_double (1 / 10)) (round_double (2 / 10)) = 5404319552844596 / 2 ^ 54"
  "round_double (2 ^ 53 + 1) = 2 ^ 53"
  "round_double (- (3 / 10)) = - round_double (3 / 10)"
  by code_simp+




lemma index_batch_loop_filter:
  "index_batch_loop articles docs metas tr =
     (docs @ map full_text (filter has_required_fields articles),
      metas @ map metadata_of (filter has_required_fields articles),
      tr @ map (\<lambda>a. Print (skip_message a)) (filter (\<lambda>a. \<not> has_required_fields a) articles))"
  by (induction articles arbitrary: docs metas tr) simp_all

lemma answer_support_query_store_error:
  assumes "embed_content cl (world st) ''gemini-embedding-001'' [expand_query user_query]
             ''RETRIEVAL_QUERY'' 768 = (Inr (v # vs), w1)"
    and "collection_query cl w1 v top_k
           (case category_filter of None \<Rightarrow> None | Some c \<Rightarrow> if c = [] then None else Some c)
         = (Inl e, w2)"
  shows "fst (answer_support_query cl user_query top_k category_filter st) = Inl e"
  using assms by (simp add: answer_support_query_def nth_py_def Let_def)

lemma index_batch_store_error:
  assumes "filter has_required_fields articles \<noteq> []"
    and "embed_content cl (world st) ''gemini-embedding-001''
           (map full_text (filter has_required_fields articles)) ''RETRIEVAL_DOCUMENT'' 768
         = (Inr embeddings, w1)"
    and "collection_add cl w1 embeddings
           (map full_text (filter has_required_fields articles))
           (map metadata_of (filter has_required_fields articles))
           (map (\<lambda>i. ''doc_'' @ str_of_nat (start_idx + i))
              [0..<length (filter has_required_fields articles)])
         = (Inl e, w2)"
  shows "fst (index_batch cl articles start_idx st) = Inl e"
  using assms
  by (simp add: index_batch_def index_batch_loop_filter emit_def Let_def del: str_of_nat.simps)

lemma index_batch_embed_error:
  assumes "embed_content cl (world st) ''gemini-embedding-001''
           (map full_text (filter has_required_fields articles)) ''RETRIEVAL_DOCUMENT'' 768
         = (Inl e, w1)"
  shows "fst (index_batch cl articles start_idx st) = Inr ()"
  using assms
  by (simp add: index_batch_def index_batch_loop_filter emit_def Let_def del: str_of_nat.simps)


section \<open>The claims about the expander, the estimator and the orchestrators\<close>




text \<open>
  Claim C6. \<open>_expand_query\<close> lower-cases the query and then walks the fixed mapping in
  its order, appending a space and the expansion terms of an entry whenever the trigger
  occurs as a contiguous substring of the string accumulated so far. On the sample query
  of the specification the result holds both expansions.
\<close>

theorem expand_query_spec:
  "expand_query user_query =
     foldl (\<lambda>expanded (trigger, synonyms).
              if (\<exists>pre post. expanded = pre @ trigger @ post)
              then expanded @ '' '' @ synonyms else expanded)
       (lower_py user_query) expansions \<and>
   expand_query ''I can't login'' =
     ''i can't login cannot unable sign in signin authenticate'' \<and>
   sublist ''cannot unable'' (expand_query ''I can't login'') \<and>
   sublist ''sign in signin authenticate'' (expand_query ''I can't login'')"
proof -
  have "sublist ''cannot unable'' ''i can't login cannot unable sign in signin authenticate''"
    by code_simp
  moreover have
    "sublist ''sign in signin authenticate'' ''i can't login cannot unable sign in signin authenticate''"
    by code_simp
  ultimately show ?thesis
    by (simp add: expand_query_login) (simp add: expand_query_def expand_loop_foldl)
qed

text \<open>
  Claim C7. The claim asks that no collaborator error leaves the public operations. With
  a vector store that raises, while Embedder and Generator work, the exception of
  \<open>collection.query\<close> leaves \<open>answer_support_query\<close> and the exception of
  \<open>collection.add\<close> leaves \<open>index_help_articles\<close>: neither call stands inside a
  \<open>try\<close>.
\<close>

theorem collaborator_error_propagates:
  "fst (answer_support_query (sample_client True False True) ''How do I reset my password?'' 3 None
          sample_state) = Inl (Exception ''vector store unavailable'') \<and>
   fst (index_help_articles (sample_client True False True) [sample_article] 100 sample_state)
     = Inl (Exception ''vector store unavailable'')"
  by code_simp

text \<open>
  Claim C8. Indexing an empty list of articles only prints a line: the outside world
  (the contents of the vector store among it) is unchanged, and no call to a collaborator
  is added to the trace.
\<close>

theorem index_help_articles_empty:
  "index_help_articles cl [] batch_size st =
     (Inr (), st\<lparr>trace := trace st @ [Print ''No articles to index.'']\<rparr>) \<and>
   world (snd (index_help_articles cl [] batch_size st)) = world st \<and>
   filter is_collaborator_call (trace (snd (index_help_articles cl [] batch_size st))) =
     filter is_collaborator_call (trace st)"
  by (simp add: index_help_articles_def emit_def)

text \<open>The theorem on the sample collaborators with an empty store.\<close>

theorem index_help_articles_empty_witness:
  "index_help_articles (sample_client True True True) [] 100 sample_state =
     (Inr (), \<lparr>world = [], trace = [Print ''No articles to index.'']\<rparr>)"
  using index_help_articles_empty [of "sample_client True True True" 100 sample_state]
  by (simp add: sample_state_def)



text \<open>
  Claim C10. When the embedding of the query raises, \<open>answer_support_query\<close> returns
  a result with an empty \<open>relevant_articles\<close> list and the confidence \<open>error\<close>, a
  value outside the four labels, which are all that \<open>_calculate_confidence\<close> returns.
\<close>

theorem answer_support_query_embed_error:
  assumes "embed_content cl (world st) ''gemini-embedding-001'' [expand_query user_query]
             ''RETRIEVAL_QUERY'' 768 = (Inl e, w1)"
  shows "fst (answer_support_query cl user_query top_k category_filter st) =
           Inr \<lparr>answer = ''Error processing query: '' @ str_exn e,
                 relevant_articles = [], confidence = ''error''\<rparr> \<and>
         ''error'' \<notin> set [''high'', ''medium'', ''low'', ''none''] \<and>
         calculate_confidence mean ds \<in> set [''high'', ''medium'', ''low'', ''none'']"
proof -
  have "fst (answer_support_query cl user_query top_k category_filter st) =
           Inr \<lparr>answer = ''Error processing query: '' @ str_exn e,
                 relevant_articles = [], confidence = ''error''\<rparr>"
    using assms by (simp add: answer_support_query_def Let_def)
  moreover have "''error'' \<notin> set [''high'', ''medium'', ''low'', ''none'']" by simp
  ultimately show ?thesis using calculate_confidence_labels by blast
qed

text \<open>The theorem on sample collaborators whose Embedder raises.\<close>

theorem answer_support_query_embed_error_witness:
  "embed_content (sample_client False True True) (world sample_state) ''gemini-embedding-001''
     [expand_query ''I can't login''] ''RETRIEVAL_QUERY'' 768
     = (Inl (Exception ''embedding service unavailable''), []) \<and>
   fst (answer_support_query (sample_client False True True) ''I can't login'' 3 None sample_state) =
     Inr \<lparr>answer = ''Error processing query: embedding service unavailable'',
           relevant_articles = [], confidence = ''error''\<rparr> \<and>
   calculate_confidence np_mean_sequential (map round_double [4 / 10, 5 / 10]) \<in> set [''high'', ''medium'', ''low'', ''none'']"
proof -
  have a: "embed_content (sample_client False True True) (world sample_state) ''gemini-embedding-001''
     [expand_query ''I can't login''] ''RETRIEVAL_QUERY'' 768
     = (Inl (Exception ''embedding service unavailable''), [])"
    by (simp add: sample_client_def sample_state_def)
  from answer_support_query_embed_error [OF a, of 3 None np_mean_sequential "map round_double [4 / 10, 5 / 10]"] a show ?thesis
    by simp
qed

end
